theory Spec2Isabelle
  imports Main "HOL-Library.Sublist"
begin

text \<open>
  A model of a cron expression utility written in TypeScript: the splitter of an expression
  into its fields (\<open>parseCronExpression\<close>), the validator of one field
  (\<open>validateCronField\<close>), the renderer of an English description (\<open>describeCron\<close>) and
  the simulator of the next executions (\<open>getNextExecutions\<close>), followed by the
  properties of each. The record type \<open>ParsedCron\<close> follows the use the functions make of
  it: five fields that are strings and an optional \<open>second\<close>.
\<close>

section \<open>JavaScript strings and numbers\<close>

text \<open>
  A JavaScript string is a sequence of UTF-16 code units. The model keeps the code units
  below 256, one \<open>char\<close> each. A JavaScript number that the program obtains from
  \<open>parseInt\<close> or from a \<open>Date\<close> getter is an integer or \<open>NaN\<close>; it is modelled as
  \<open>int option\<close> with \<open>None\<close> for \<open>NaN\<close> (the rounding of integers beyond \<open>2^53\<close>
  is not modelled).
\<close>

definition isWhiteSpace :: "char \<Rightarrow> bool" where
  \<comment> \<open>the members of the regular expression class \<open>\s\<close> below 256: TAB, LF, VT, FF, CR, SP, NBSP\<close>
  "isWhiteSpace c \<longleftrightarrow> c \<in> set [CHR 0x09, CHR 0x0A, CHR 0x0B, CHR 0x0C, CHR 0x0D, CHR 0x20, CHR 0xA0]"

definition notWhiteSpace :: "char \<Rightarrow> bool" where
  "notWhiteSpace c \<longleftrightarrow> \<not> isWhiteSpace c"

definition trimStart :: "string \<Rightarrow> string" where
  "trimStart s = dropWhile isWhiteSpace s"

definition trim :: "string \<Rightarrow> string" where
  \<comment> \<open>\<open>String.prototype.trim\<close>\<close>
  "trim s = rev (dropWhile isWhiteSpace (rev (dropWhile isWhiteSpace s)))"

function splitWs :: "string \<Rightarrow> string list" where
  \<comment> \<open>\<open>s.split(/\s+/)\<close>: the pieces between the maximal whitespace runs; a run at either end
      leaves an empty piece there, and the empty string gives one empty piece\<close>
  "splitWs s =
     (case dropWhile notWhiteSpace s of
        [] \<Rightarrow> [s]
      | c # rest \<Rightarrow> takeWhile notWhiteSpace s # splitWs (dropWhile isWhiteSpace rest))"
  by pat_completeness auto
termination
proof (relation "measure length")
  show "wf (measure length)" by simp
next
  fix s :: string and c rest
  assume h: "dropWhile notWhiteSpace s = c # rest"
  have "length (dropWhile isWhiteSpace rest) \<le> length rest"
    by (rule length_dropWhile_le)
  also have "length rest < length (dropWhile notWhiteSpace s)"
    using h by simp
  also have "\<dots> \<le> length s"
    by (rule length_dropWhile_le)
  finally show "(dropWhile isWhiteSpace rest, s) \<in> measure length" by simp
qed

declare splitWs.simps [simp del]

fun splitOn :: "char \<Rightarrow> string \<Rightarrow> string list" where
  \<comment> \<open>\<open>s.split(sep)\<close> for a one-character separator\<close>
  "splitOn sep [] = [[]]"
| "splitOn sep (c # cs) =
     (if c = sep then [] # splitOn sep cs
      else (case splitOn sep cs of p # ps \<Rightarrow> (c # p) # ps | [] \<Rightarrow> [[c]]))"

definition startsWith :: "string \<Rightarrow> string \<Rightarrow> bool" where
  \<comment> \<open>\<open>s.startsWith(p)\<close>\<close>
  "startsWith p s \<longleftrightarrow> take (length p) s = p"

definition includesChar :: "char \<Rightarrow> string \<Rightarrow> bool" where
  \<comment> \<open>\<open>s.includes(c)\<close> for a one-character needle\<close>
  "includesChar c s \<longleftrightarrow> c \<in> set s"

section \<open>The expression splitter\<close>

record ParsedCron =
  second :: "string option"
  minute :: string
  hour :: string
  dayOfMonth :: string
  month :: string
  dayOfWeek :: string

definition parseCronExpression :: "string \<Rightarrow> ParsedCron option" where
  "parseCronExpression expression =
     (let parts = splitWs (trim expression) in
      if length parts = 5 then
        Some \<lparr>second = None, minute = parts ! 0, hour = parts ! 1, dayOfMonth = parts ! 2,
              month = parts ! 3, dayOfWeek = parts ! 4\<rparr>
      else if length parts = 6 then
        Some \<lparr>second = Some (parts ! 0), minute = parts ! 1, hour = parts ! 2,
              dayOfMonth = parts ! 3, month = parts ! 4, dayOfWeek = parts ! 5\<rparr>
      else None)"

text \<open>
  The tokens of a string, read from the specification: the maximal runs of characters that
  are not whitespace, in order.
\<close>

function tokens :: "string \<Rightarrow> string list" where
  "tokens s =
     (case dropWhile isWhiteSpace s of
        [] \<Rightarrow> []
      | c # cs \<Rightarrow> takeWhile notWhiteSpace (c # cs) # tokens (dropWhile notWhiteSpace cs))"
  by pat_completeness auto
termination
proof (relation "measure length")
  show "wf (measure length)" by simp
next
  fix s :: string and c cs
  assume h: "dropWhile isWhiteSpace s = c # cs"
  have "length (dropWhile notWhiteSpace cs) \<le> length cs"
    by (rule length_dropWhile_le)
  also have "length cs < length (dropWhile isWhiteSpace s)"
    using h by simp
  also have "\<dots> \<le> length s"
    by (rule length_dropWhile_le)
  finally show "(dropWhile notWhiteSpace cs, s) \<in> measure length" by simp
qed

declare tokens.simps [simp del]

section \<open>Numbers\<close>

type_synonym number = "int option"

definition isNaN :: "number \<Rightarrow> bool" where
  "isNaN x \<longleftrightarrow> x = None"

definition numLt :: "number \<Rightarrow> number \<Rightarrow> bool" where
  \<comment> \<open>\<open>a < b\<close>: false when either side is \<open>NaN\<close>\<close>
  "numLt a b = (case (a, b) of (Some x, Some y) \<Rightarrow> x < y | _ \<Rightarrow> False)"

definition numLe :: "number \<Rightarrow> number \<Rightarrow> bool" where
  "numLe a b = (case (a, b) of (Some x, Some y) \<Rightarrow> x \<le> y | _ \<Rightarrow> False)"

definition numGt :: "number \<Rightarrow> number \<Rightarrow> bool" where
  "numGt a b = numLt b a"

definition numGe :: "number \<Rightarrow> number \<Rightarrow> bool" where
  "numGe a b = numLe b a"

definition numEq :: "number \<Rightarrow> number \<Rightarrow> bool" where
  \<comment> \<open>\<open>a === b\<close> on numbers: \<open>NaN\<close> equals nothing\<close>
  "numEq a b = (case (a, b) of (Some x, Some y) \<Rightarrow> x = y | _ \<Rightarrow> False)"

definition numRem :: "number \<Rightarrow> number \<Rightarrow> number" where
  \<comment> \<open>\<open>a % b\<close>: the remainder of the truncating division, with the sign of \<open>a\<close>;
      \<open>NaN\<close> when \<open>b\<close> is zero\<close>
  "numRem a b =
     (case (a, b) of
        (Some x, Some y) \<Rightarrow> (if y = 0 then None else Some (sgn x * (\<bar>x\<bar> mod \<bar>y\<bar>)))
      | _ \<Rightarrow> None)"

definition digitVal :: "char \<Rightarrow> nat option" where
  \<comment> \<open>the value of a digit or letter as \<open>parseInt\<close> reads it\<close>
  "digitVal c =
     (let n = (of_char c :: nat) in
      if 48 \<le> n \<and> n \<le> 57 then Some (n - 48)
      else if 97 \<le> n \<and> n \<le> 122 then Some (n - 87)
      else if 65 \<le> n \<and> n \<le> 90 then Some (n - 55)
      else None)"

definition isRadixDigit :: "nat \<Rightarrow> char \<Rightarrow> bool" where
  "isRadixDigit R c = (case digitVal c of Some d \<Rightarrow> d < R | None \<Rightarrow> False)"

fun digitsValue :: "nat \<Rightarrow> int \<Rightarrow> string \<Rightarrow> int" where
  "digitsValue R acc [] = acc"
| "digitsValue R acc (c # cs) =
     digitsValue R (acc * int R + (case digitVal c of Some d \<Rightarrow> int d | None \<Rightarrow> 0)) cs"

definition parseInt :: "string \<Rightarrow> nat \<Rightarrow> number" where
  \<comment> \<open>\<open>parseInt(s, radix)\<close>; radix \<open>0\<close> stands for a call without radix\<close>
  "parseInt inputString radix =
     (let S = trimStart inputString;
          sign = (if S \<noteq> [] \<and> hd S = CHR ''-'' then -1 else 1 :: int);
          S1 = (if S \<noteq> [] \<and> (hd S = CHR ''+'' \<or> hd S = CHR ''-'') then tl S else S)
      in if radix \<noteq> 0 \<and> (radix < 2 \<or> 36 < radix) then None
         else
           (let stripPrefix = (radix = 0 \<or> radix = 16);
                R0 = (if radix = 0 then 10 else radix);
                hex = (stripPrefix \<and> (startsWith ''0x'' S1 \<or> startsWith ''0X'' S1));
                S2 = (if hex then drop 2 S1 else S1);
                R = (if hex then 16 else R0);
                Z = takeWhile (isRadixDigit R) S2
            in if Z = [] then None else Some (sign * digitsValue R 0 Z)))"

fun showNat :: "nat \<Rightarrow> string" where
  "showNat n =
     (if n < 10 then [''0123456789'' ! n] else showNat (n div 10) @ [''0123456789'' ! (n mod 10)])"

declare showNat.simps [simp del]

definition showInt :: "int \<Rightarrow> string" where
  \<comment> \<open>an integer inside a template literal\<close>
  "showInt i = (if i < 0 then CHR ''-'' # showNat (nat (- i)) else showNat (nat i))"

section \<open>Arrays with holes\<close>

definition arrayAt :: "'a list \<Rightarrow> int \<Rightarrow> 'a option" where
  \<comment> \<open>\<open>xs[i]\<close>: \<open>undefined\<close> (\<open>None\<close>) outside the array\<close>
  "arrayAt xs i = (if 0 \<le> i \<and> i < int (length xs) then Some (xs ! nat i) else None)"

definition numAt :: "number list \<Rightarrow> nat \<Rightarrow> number" where
  \<comment> \<open>an element bound by array destructuring, as the comparisons read it: a missing
      element is \<open>undefined\<close>, which \<open>isNaN\<close> and the comparisons treat as \<open>NaN\<close>\<close>
  "numAt xs i = (if i < length xs then xs ! i else None)"

definition strOf :: "string option \<Rightarrow> string" where
  \<comment> \<open>a string or \<open>undefined\<close> inside a template literal\<close>
  "strOf x = (case x of Some s \<Rightarrow> s | None \<Rightarrow> ''undefined'')"

fun joinWith :: "string \<Rightarrow> string option list \<Rightarrow> string" where
  \<comment> \<open>\<open>xs.join(sep)\<close>: an \<open>undefined\<close> element contributes the empty string\<close>
  "joinWith sep [] = []"
| "joinWith sep [x] = (case x of Some s \<Rightarrow> s | None \<Rightarrow> [])"
| "joinWith sep (x # y # ys) = (case x of Some s \<Rightarrow> s | None \<Rightarrow> []) @ sep @ joinWith sep (y # ys)"

definition padStart :: "nat \<Rightarrow> char \<Rightarrow> string \<Rightarrow> string" where
  \<comment> \<open>\<open>s.padStart(n, c)\<close> for a one-character filler\<close>
  "padStart n c s = (if n \<le> length s then s else replicate (n - length s) c @ s)"

definition toUpperCaseChar :: "char \<Rightarrow> char" where
  \<comment> \<open>\<open>toUpperCase\<close> on one ASCII character; the program applies it to the first
      character of a description, which is always \<open>a\<close> or \<open>e\<close>\<close>
  "toUpperCaseChar c =
     (case map_of (zip ''abcdefghijklmnopqrstuvwxyz'' ''ABCDEFGHIJKLMNOPQRSTUVWXYZ'') c of
        Some u \<Rightarrow> u
      | None \<Rightarrow> c)"

section \<open>The field validator\<close>

record FieldValidity =
  valid :: bool
  error :: "string option"

definition validateCronField :: "string \<Rightarrow> int \<Rightarrow> int \<Rightarrow> FieldValidity" where
  "validateCronField value mn mx =
     (if value = ''*'' then \<lparr>valid = True, error = None\<rparr>
      else if startsWith ''*/'' value then
        (let step = parseInt (drop 2 value) 10 in
         if isNaN step \<or> numLe step (Some 0)
         then \<lparr>valid = False, error = Some ''Invalid step value''\<rparr>
         else \<lparr>valid = True, error = None\<rparr>)
      else if includesChar CHR ''-'' value then
        (let ps = map (\<lambda>v. parseInt v 10) (splitOn CHR ''-'' value);
             start = numAt ps 0;
             end = numAt ps 1
         in if isNaN start \<or> isNaN end \<or> numLt start (Some mn) \<or> numGt end (Some mx) \<or> numGt start end
            then \<lparr>valid = False, error = Some (''Range must be '' @ showInt mn @ ''-'' @ showInt mx)\<rparr>
            else \<lparr>valid = True, error = None\<rparr>)
      else if includesChar CHR '','' value then
        (let values = map (\<lambda>v. parseInt v 10) (splitOn CHR '','' value) in
         if list_ex (\<lambda>v. isNaN v \<or> numLt v (Some mn) \<or> numGt v (Some mx)) values
         then \<lparr>valid = False, error = Some (''Values must be '' @ showInt mn @ ''-'' @ showInt mx)\<rparr>
         else \<lparr>valid = True, error = None\<rparr>)
      else
        (let num = parseInt value 10 in
         if isNaN num \<or> numLt num (Some mn) \<or> numGt num (Some mx)
         then \<lparr>valid = False, error = Some (''Must be '' @ showInt mn @ ''-'' @ showInt mx)\<rparr>
         else \<lparr>valid = True, error = None\<rparr>))"

section \<open>The description renderer\<close>

definition describeField :: "string \<Rightarrow> string \<Rightarrow> string" where
  "describeField value fieldName =
     (if value = ''*'' then ''every '' @ fieldName
      else if startsWith ''*/'' value then
        (let step = drop 2 value in
         ''every '' @ step @ '' '' @ fieldName @ (if numGt (parseInt step 0) (Some 1) then ''s'' else []))
      else if includesChar CHR ''-'' value then
        (let ps = splitOn CHR ''-'' value;
             start = arrayAt ps 0;
             end = arrayAt ps 1
         in fieldName @ ''s '' @ strOf start @ '' through '' @ strOf end)
      else if includesChar CHR '','' value then
        (let values = splitOn CHR '','' value in
         fieldName @ ''s '' @ joinWith '', '' (map Some values))
      else fieldName @ '' '' @ value)"

definition monthNames :: "string list" where
  "monthNames = [''January'', ''February'', ''March'', ''April'', ''May'', ''June'', ''July'',
     ''August'', ''September'', ''October'', ''November'', ''December'']"

definition dayNames :: "string list" where
  "dayNames = [''Sunday'', ''Monday'', ''Tuesday'', ''Wednesday'', ''Thursday'', ''Friday'', ''Saturday'']"

definition dowName :: "string \<Rightarrow> string option" where
  \<comment> \<open>the arrow function mapped over the day-of-week tokens\<close>
  "dowName d = (case parseInt d 10 of None \<Rightarrow> Some d | Some dayNum \<Rightarrow> arrayAt dayNames dayNum)"

definition monthName :: "string \<Rightarrow> string option" where
  \<comment> \<open>the arrow function mapped over the month tokens\<close>
  "monthName m = (case parseInt m 10 of None \<Rightarrow> Some m | Some monthNum \<Rightarrow> arrayAt monthNames (monthNum - 1))"

definition truthy :: "string option \<Rightarrow> bool" where
  \<comment> \<open>a string or \<open>undefined\<close> in a condition: present and not empty\<close>
  "truthy x = (case x of None \<Rightarrow> False | Some s \<Rightarrow> s \<noteq> [])"

definition timePartOf :: "ParsedCron \<Rightarrow> string" where
  "timePartOf parsed =
     (let timePart0 =
            (if truthy (second parsed) \<and> second parsed \<noteq> Some ''*''
             then ''at '' @ describeField (strOf (second parsed)) ''second'' else [])
      in if minute parsed = ''*'' \<and> hour parsed = ''*'' then
           (if timePart0 \<noteq> [] then timePart0 @ '', every minute'' else ''every minute'')
         else if minute parsed \<noteq> ''*'' \<and> hour parsed = ''*'' then
           ''at '' @ describeField (minute parsed) ''minute'' @ '' past every hour''
         else if minute parsed = ''*'' \<and> hour parsed \<noteq> ''*'' then
           ''every minute during '' @ describeField (hour parsed) ''hour''
         else
           (let hourDesc =
                  (if includesChar CHR '','' (hour parsed) \<or> includesChar CHR ''-'' (hour parsed)
                      \<or> includesChar CHR ''/'' (hour parsed)
                   then describeField (hour parsed) ''hour''
                   else padStart 2 CHR ''0'' (hour parsed));
                minuteDesc =
                  (if includesChar CHR '','' (minute parsed) \<or> includesChar CHR ''-'' (minute parsed)
                      \<or> includesChar CHR ''/'' (minute parsed)
                   then describeField (minute parsed) ''minute''
                   else padStart 2 CHR ''0'' (minute parsed))
            in ''at '' @ hourDesc @ '':'' @ minuteDesc))"

definition dayPartOf :: "ParsedCron \<Rightarrow> string" where
  "dayPartOf parsed =
     (if dayOfMonth parsed \<noteq> ''*'' \<and> dayOfWeek parsed \<noteq> ''*'' then
        (let domDesc = describeField (dayOfMonth parsed) ''day'';
             dowDesc = joinWith '', '' (map dowName (splitOn CHR '','' (dayOfWeek parsed)))
         in ''on '' @ domDesc @ '' and '' @ dowDesc)
      else if dayOfMonth parsed \<noteq> ''*'' then
        ''on '' @ describeField (dayOfMonth parsed) ''day of month''
      else if dayOfWeek parsed \<noteq> ''*'' then
        (let dowDesc = joinWith '', '' (map dowName (splitOn CHR '','' (dayOfWeek parsed)))
         in ''on '' @ dowDesc)
      else [])"

definition monthPartOf :: "ParsedCron \<Rightarrow> string" where
  "monthPartOf parsed =
     (if month parsed \<noteq> ''*'' then
        (let monthDesc = joinWith '', '' (map monthName (splitOn CHR '','' (month parsed)))
         in ''in '' @ monthDesc)
      else [])"

definition capitalize :: "string \<Rightarrow> string" where
  \<comment> \<open>\<open>s.charAt(0).toUpperCase() + s.slice(1)\<close>\<close>
  "capitalize s = (case s of [] \<Rightarrow> [] | c # rest \<Rightarrow> toUpperCaseChar c # rest)"

definition describeCron :: "ParsedCron \<Rightarrow> string" where
  "describeCron parsed =
     (let description =
            joinWith '' '' (map Some (filter (\<lambda>p. p \<noteq> [])
              [timePartOf parsed, dayPartOf parsed, monthPartOf parsed]))
      in capitalize description)"

section \<open>Dates\<close>

text \<open>
  A \<open>Date\<close> is its time value: the milliseconds since the epoch, an integer. The getters
  follow the ECMAScript definitions of the calendar on the local time
  \<open>t + LocalTZA(t)\<close>; the offset of the local time zone is a parameter \<open>tza\<close> of the
  model, and so is the instant \<open>now\<close> that \<open>new Date()\<close> reads from the clock. Time
  values stay integers: the limit of \<open>8.64e15\<close> milliseconds on either side of the
  epoch, beyond which a \<open>Date\<close> is invalid, is not modelled.
\<close>

definition msPerDay :: int where "msPerDay = 86400000"
definition msPerHour :: int where "msPerHour = 3600000"
definition msPerMinute :: int where "msPerMinute = 60000"

definition Day :: "int \<Rightarrow> int" where
  "Day t = t div msPerDay"

definition DaysInYear :: "int \<Rightarrow> int" where
  "DaysInYear y =
     (if y mod 4 \<noteq> 0 then 365 else if y mod 100 \<noteq> 0 then 366
      else if y mod 400 \<noteq> 0 then 365 else 366)"

definition DayFromYear :: "int \<Rightarrow> int" where
  "DayFromYear y = 365 * (y - 1970) + (y - 1969) div 4 - (y - 1901) div 100 + (y - 1601) div 400"

definition YearFromDay :: "int \<Rightarrow> int" where
  \<comment> \<open>the year \<open>y\<close> with \<open>DayFromYear y \<le> d < DayFromYear (y + 1)\<close>, computed from the
      cycles of 400, 100, 4 and 1 years that start on 1 January 2001 (day 11323)\<close>
  "YearFromDay d =
     (let z = d - 11323;
          q400 = z div 146097; r400 = z mod 146097;
          q100 = min 3 (r400 div 36524); r100 = r400 - q100 * 36524;
          q4 = r100 div 1461; r4 = r100 mod 1461;
          q1 = min 3 (r4 div 365)
      in 2001 + 400 * q400 + 100 * q100 + 4 * q4 + q1)"

definition YearFromTime :: "int \<Rightarrow> int" where
  "YearFromTime t = YearFromDay (Day t)"

definition InLeapYear :: "int \<Rightarrow> int" where
  "InLeapYear t = (if DaysInYear (YearFromTime t) = 366 then 1 else 0)"

definition DayWithinYear :: "int \<Rightarrow> int" where
  "DayWithinYear t = Day t - DayFromYear (YearFromTime t)"

definition MonthFromTime :: "int \<Rightarrow> int" where
  "MonthFromTime t =
     (let d = DayWithinYear t; leap = InLeapYear t in
      if d < 31 then 0
      else if d < 59 + leap then 1
      else if d < 90 + leap then 2
      else if d < 120 + leap then 3
      else if d < 151 + leap then 4
      else if d < 181 + leap then 5
      else if d < 212 + leap then 6
      else if d < 243 + leap then 7
      else if d < 273 + leap then 8
      else if d < 304 + leap then 9
      else if d < 334 + leap then 10
      else 11)"

definition DateFromTime :: "int \<Rightarrow> int" where
  "DateFromTime t =
     (let d = DayWithinYear t; leap = InLeapYear t; m = MonthFromTime t in
      if m = 0 then d + 1
      else if m = 1 then d - 30
      else if m = 2 then d - 58 - leap
      else if m = 3 then d - 89 - leap
      else if m = 4 then d - 119 - leap
      else if m = 5 then d - 150 - leap
      else if m = 6 then d - 180 - leap
      else if m = 7 then d - 211 - leap
      else if m = 8 then d - 242 - leap
      else if m = 9 then d - 272 - leap
      else if m = 10 then d - 303 - leap
      else d - 333 - leap)"

definition WeekDay :: "int \<Rightarrow> int" where
  "WeekDay t = (Day t + 4) mod 7"

definition HourFromTime :: "int \<Rightarrow> int" where
  "HourFromTime t = (t div msPerHour) mod 24"

definition MinFromTime :: "int \<Rightarrow> int" where
  "MinFromTime t = (t div msPerMinute) mod 60"

definition LocalTime :: "(int \<Rightarrow> int) \<Rightarrow> int \<Rightarrow> int" where
  "LocalTime tza t = t + tza t"

definition getMinutes :: "(int \<Rightarrow> int) \<Rightarrow> int \<Rightarrow> int" where
  "getMinutes tza t = MinFromTime (LocalTime tza t)"

definition getHours :: "(int \<Rightarrow> int) \<Rightarrow> int \<Rightarrow> int" where
  "getHours tza t = HourFromTime (LocalTime tza t)"

definition getDate :: "(int \<Rightarrow> int) \<Rightarrow> int \<Rightarrow> int" where
  "getDate tza t = DateFromTime (LocalTime tza t)"

definition getMonth :: "(int \<Rightarrow> int) \<Rightarrow> int \<Rightarrow> int" where
  "getMonth tza t = MonthFromTime (LocalTime tza t)"

definition getDay :: "(int \<Rightarrow> int) \<Rightarrow> int \<Rightarrow> int" where
  "getDay tza t = WeekDay (LocalTime tza t)"

section \<open>The occurrence simulator\<close>

definition matchesField :: "string \<Rightarrow> int \<Rightarrow> bool" where
  "matchesField field v =
     (if field = ''*'' then True
      else if startsWith ''*/'' field then
        (let step = parseInt (drop 2 field) 10 in
         numEq (numRem (Some v) step) (Some 0))
      else if includesChar CHR ''-'' field then
        (let ps = map (\<lambda>v. parseInt v 10) (splitOn CHR ''-'' field);
             start = numAt ps 0;
             end = numAt ps 1
         in numGe (Some v) start \<and> numLe (Some v) end)
      else if includesChar CHR '','' field then
        (let values = map (\<lambda>v. parseInt v 10) (splitOn CHR '','' field) in
         Some v \<in> set values)
      else numEq (parseInt field 10) (Some v))"

definition matchesAll :: "(int \<Rightarrow> int) \<Rightarrow> ParsedCron \<Rightarrow> int \<Rightarrow> bool" where
  \<comment> \<open>the five tests of one candidate; a failed test is a \<open>continue\<close>\<close>
  "matchesAll tza parsed current =
     (let minute' = getMinutes tza current;
          hour' = getHours tza current;
          dayOfMonth' = getDate tza current;
          month' = getMonth tza current + 1;
          dayOfWeek' = getDay tza current
      in if \<not> matchesField (minute parsed) minute' then False
         else if \<not> matchesField (hour parsed) hour' then False
         else if \<not> matchesField (dayOfMonth parsed) dayOfMonth' then False
         else if \<not> matchesField (month parsed) month' then False
         else if \<not> matchesField (dayOfWeek parsed) dayOfWeek' then False
         else True)"

record LoopState =
  iter :: int
  current :: int
  dates :: "int list"

definition loopBody :: "(int \<Rightarrow> int) \<Rightarrow> ParsedCron \<Rightarrow> LoopState \<Rightarrow> LoopState" where
  \<comment> \<open>one pass through the body of the \<open>for\<close> loop, followed by \<open>i++\<close> (which a
      \<open>continue\<close> reaches too)\<close>
  "loopBody tza parsed st =
     (let current' = current st + 60000 in
      if matchesAll tza parsed current'
      then \<lparr>iter = iter st + 1, current = current', dates = dates st @ [current']\<rparr>
      else \<lparr>iter = iter st + 1, current = current', dates = dates st\<rparr>)"

function nextLoop :: "(int \<Rightarrow> int) \<Rightarrow> ParsedCron \<Rightarrow> int \<Rightarrow> LoopState \<Rightarrow> LoopState" where
  \<comment> \<open>the \<open>for\<close> loop, from the state before its test; \<open>iter\<close> is the variable \<open>i\<close>\<close>
  "nextLoop tza parsed count st =
     (if iter st < count * 100 \<and> int (length (dates st)) < count
      then nextLoop tza parsed count (loopBody tza parsed st)
      else st)"
  by pat_completeness auto
termination
  by (relation "measure (\<lambda>(tza, parsed, count, st). nat (count * 100 - iter st))")
     (auto simp: loopBody_def Let_def)

declare nextLoop.simps [simp del]

definition runNextExecutions :: "(int \<Rightarrow> int) \<Rightarrow> int \<Rightarrow> ParsedCron \<Rightarrow> int \<Rightarrow> LoopState" where
  \<comment> \<open>the state in which the loop of \<open>getNextExecutions\<close> ends\<close>
  "runNextExecutions tza now parsed count =
     nextLoop tza parsed count \<lparr>iter = 0, current = now, dates = []\<rparr>"

definition getNextExecutions :: "(int \<Rightarrow> int) \<Rightarrow> int \<Rightarrow> ParsedCron \<Rightarrow> int \<Rightarrow> int list" where
  "getNextExecutions tza now parsed count = dates (runNextExecutions tza now parsed count)"

definition getNextExecutionsDefault :: "(int \<Rightarrow> int) \<Rightarrow> int \<Rightarrow> ParsedCron \<Rightarrow> int list" where
  \<comment> \<open>a call without \<open>count\<close>: the default is 5\<close>
  "getNextExecutionsDefault tza now parsed = getNextExecutions tza now parsed 5"

section \<open>Notions of the specification\<close>

definition rangeStart :: "string \<Rightarrow> string" where
  \<comment> \<open>the first half of a range: the text before the first hyphen\<close>
  "rangeStart value = takeWhile (\<lambda>c. c \<noteq> CHR ''-'') value"

definition rangeEnd :: "string \<Rightarrow> string" where
  \<comment> \<open>the second half of a range: the text after the first hyphen, up to the next one\<close>
  "rangeEnd value =
     takeWhile (\<lambda>c. c \<noteq> CHR ''-'') (drop 1 (dropWhile (\<lambda>c. c \<noteq> CHR ''-'') value))"

definition malformedField :: "string \<Rightarrow> bool" where
  \<comment> \<open>a field none of whose numbers can match: the step, a half of the range, every
      element of the list, or the single value does not parse as an integer\<close>
  "malformedField field \<longleftrightarrow>
     field \<noteq> ''*'' \<and>
     (if startsWith ''*/'' field then parseInt (drop 2 field) 10 = None
      else if includesChar CHR ''-'' field then
        parseInt (rangeStart field) 10 = None \<or> parseInt (rangeEnd field) 10 = None
      else if includesChar CHR '','' field then
        list_all (\<lambda>p. parseInt p 10 = None) (splitOn CHR '','' field)
      else parseInt field 10 = None)"

definition listField :: "string \<Rightarrow> bool" where
  \<comment> \<open>a field that \<open>matchesField\<close> reads as a list\<close>
  "listField field \<longleftrightarrow>
     field \<noteq> ''*'' \<and> \<not> startsWith ''*/'' field \<and> \<not> includesChar CHR ''-'' field
     \<and> includesChar CHR '','' field"

definition wellFormedElements :: "string \<Rightarrow> int list" where
  \<comment> \<open>the values of the elements of a list that parse as integers\<close>
  "wellFormedElements field = List.map_filter (\<lambda>p. parseInt p 10) (splitOn CHR '','' field)"

definition candidates :: "int \<Rightarrow> int \<Rightarrow> int list" where
  \<comment> \<open>the first \<open>n\<close> candidate instants after \<open>start\<close>, one minute apart\<close>
  "candidates start n = map (\<lambda>k. start + 60000 * int k) [1..<Suc (nat n)]"

definition containsStr :: "string \<Rightarrow> string \<Rightarrow> bool" where
  \<comment> \<open>\<open>s\<close> contains \<open>p\<close> as a substring\<close>
  "containsStr p s \<longleftrightarrow> list_ex (\<lambda>k. take (length p) (drop k s) = p) [0..<Suc (length s)]"

section \<open>Example schedules\<close>

definition feb31 :: ParsedCron where
  "feb31 = \<lparr>second = None, minute = ''*'', hour = ''*'', dayOfMonth = ''31'', month = ''2'', dayOfWeek = ''*''\<rparr>"

definition everyMinute :: ParsedCron where
  "everyMinute = \<lparr>second = None, minute = ''*'', hour = ''*'', dayOfMonth = ''*'', month = ''*'', dayOfWeek = ''*''\<rparr>"

section \<open>Properties of the expression splitter\<close>

lemma notWs_iff [simp]: "notWhiteSpace c \<longleftrightarrow> \<not> isWhiteSpace c"
  by (simp add: notWhiteSpace_def)

lemma tokens_all_ws: "\<forall>c\<in>set w. isWhiteSpace c \<Longrightarrow> tokens w = []"
proof -
  assume "\<forall>c\<in>set w. isWhiteSpace c"
  then have h: "dropWhile isWhiteSpace w = []" by simp
  show ?thesis by (subst tokens.simps) (simp only: h list.case)
qed

lemma tokens_dropWhile_ws: "tokens (dropWhile isWhiteSpace s) = tokens s"
  by (subst tokens.simps, subst (2) tokens.simps) simp

lemma takeWhile_notws_append:
  "\<forall>c\<in>set w. isWhiteSpace c \<Longrightarrow> takeWhile (\<lambda>c. \<not> isWhiteSpace c) (xs @ w) = takeWhile (\<lambda>c. \<not> isWhiteSpace c) xs"
proof (induction xs)
  case Nil
  then show ?case by (cases w) auto
next
  case (Cons x xs)
  then show ?case by simp
qed

lemma tokens_append_ws:
  "\<forall>c\<in>set w. isWhiteSpace c \<Longrightarrow> tokens (t @ w) = tokens t"
proof (induction t rule: tokens.induct)
  case (1 s)
  show ?case
  proof (cases "dropWhile isWhiteSpace s")
    case Nil
    then have "\<forall>c\<in>set (s @ w). isWhiteSpace c"
      using 1(2) by (auto simp: dropWhile_eq_Nil_conv)
    then show ?thesis using Nil
      by (metis tokens_all_ws dropWhile_eq_Nil_conv)
  next
    case (Cons c cs)
    then have dw: "dropWhile isWhiteSpace (s @ w) = c # cs @ w"
      by (metis dropWhile_append1 dropWhile_eq_Nil_conv append_Cons list.distinct(1) dropWhile_append3 hd_dropWhile list.sel(1) dropWhile_append)
    show ?thesis
    proof (cases "\<forall>x\<in>set cs. \<not> isWhiteSpace x")
      case True
      then have a: "dropWhile notWhiteSpace (cs @ w) = w"
        using 1(2) by (cases w) (auto simp: dropWhile_append notWhiteSpace_def [abs_def])
      have b: "dropWhile notWhiteSpace cs = []"
        using True by (simp add: notWhiteSpace_def [abs_def])
      have c: "takeWhile notWhiteSpace (c # cs @ w) = takeWhile notWhiteSpace (c # cs)"
        using takeWhile_notws_append [OF 1(2), of "c # cs"] by (simp add: notWhiteSpace_def [abs_def])
      show ?thesis
        by (subst tokens.simps, subst (2) tokens.simps)
           (simp only: dw Cons list.case a b c tokens_all_ws [OF 1(2)] tokens_all_ws [of "[]", simplified])
    next
      case False
      then have a: "dropWhile notWhiteSpace (cs @ w) = dropWhile notWhiteSpace cs @ w"
        by (auto simp: dropWhile_append notWhiteSpace_def [abs_def])
      have c: "takeWhile notWhiteSpace (c # cs @ w) = takeWhile notWhiteSpace (c # cs)"
        using takeWhile_notws_append [OF 1(2), of "c # cs"] by (simp add: notWhiteSpace_def [abs_def])
      have ih: "tokens (dropWhile notWhiteSpace cs @ w) = tokens (dropWhile notWhiteSpace cs)"
        using 1(1) [OF Cons 1(2)] .
      show ?thesis
        by (subst tokens.simps, subst (2) tokens.simps)
           (simp only: dw Cons list.case a c ih)
    qed
  qed
qed

lemma tokens_trim: "tokens (trim s) = tokens s"
proof -
  let ?t = "dropWhile isWhiteSpace s"
  let ?w = "rev (takeWhile isWhiteSpace (rev ?t))"
  have "?t = rev (dropWhile isWhiteSpace (rev ?t)) @ ?w"
    by (metis rev_append rev_rev_ident takeWhile_dropWhile_id)
  moreover have "\<forall>c\<in>set ?w. isWhiteSpace c"
    by (auto dest: set_takeWhileD)
  ultimately have "tokens ?t = tokens (rev (dropWhile isWhiteSpace (rev ?t)))"
    by (metis tokens_append_ws)
  then show ?thesis
    by (simp add: trim_def tokens_dropWhile_ws)
qed

lemma trim_ends:
  assumes "trim s \<noteq> []"
  shows "\<not> isWhiteSpace (hd (trim s))" and "\<not> isWhiteSpace (last (trim s))"
proof -
  let ?t = "dropWhile isWhiteSpace s"
  let ?u = "dropWhile isWhiteSpace (rev ?t)"
  have u: "?u \<noteq> []" using assms by (simp add: trim_def)
  then have "\<not> isWhiteSpace (hd ?u)" by (rule hd_dropWhile)
  then show "\<not> isWhiteSpace (last (trim s))"
    using u by (simp add: trim_def last_rev)
  have t: "?t \<noteq> []" using u by (metis rev.simps(1) dropWhile.simps(1))
  then have h: "\<not> isWhiteSpace (hd ?t)" by (rule hd_dropWhile)
  have "rev ?t = takeWhile isWhiteSpace (rev ?t) @ ?u" by simp
  then have "?t = rev ?u @ rev (takeWhile isWhiteSpace (rev ?t))"
    by (metis rev_append rev_rev_ident)
  then have "hd ?t = hd (rev ?u)"
    using u by (metis hd_append2 rev_is_Nil_conv)
  then show "\<not> isWhiteSpace (hd (trim s))"
    using h by (simp add: trim_def)
qed

lemma splitWs_trimmed:
  "t \<noteq> [] \<Longrightarrow> \<not> isWhiteSpace (hd t) \<Longrightarrow> \<not> isWhiteSpace (last t) \<Longrightarrow> splitWs t = tokens t"
proof (induction t rule: splitWs.induct)
  case (1 s)
  obtain c cs where s: "s = c # cs" using 1(2) by (cases s) auto
  have c: "\<not> isWhiteSpace c" using 1(3) s by simp
  have dws: "dropWhile isWhiteSpace s = c # cs" using s c by simp
  have dn: "dropWhile notWhiteSpace s = dropWhile notWhiteSpace cs"
    using s c by simp
  show ?case
  proof (cases "dropWhile notWhiteSpace cs")
    case Nil
    then have tw: "takeWhile notWhiteSpace (c # cs) = s"
      using s c by (simp add: notWhiteSpace_def [abs_def])
    have tn: "tokens [] = []" by (simp add: tokens_all_ws)
    show ?thesis
      by (subst splitWs.simps, subst tokens.simps)
         (simp only: dws dn Nil list.case tw tn)
  next
    case (Cons d rest)
    have d: "isWhiteSpace d"
      using hd_dropWhile [of notWhiteSpace cs] Cons by simp
    let ?r = "dropWhile isWhiteSpace rest"
    have split: "s = takeWhile notWhiteSpace s @ d # rest"
      using Cons dn by (metis takeWhile_dropWhile_id)
    have lastr: "last s = last (d # rest)"
      using split by (metis last_appendR list.distinct(1))
    have rne: "?r \<noteq> []"
    proof
      assume "?r = []"
      then have "\<forall>x\<in>set (d # rest). isWhiteSpace x" using d by simp
      then have "isWhiteSpace (last (d # rest))" using last_in_set by blast
      then show False using lastr 1(4) by simp
    qed
    have hdr: "\<not> isWhiteSpace (hd ?r)" using rne by (rule hd_dropWhile)
    have "rest = takeWhile isWhiteSpace rest @ ?r" by simp
    then have "last rest = last ?r" using rne by (metis last_appendR)
    moreover have "rest \<noteq> []" using rne by auto
    ultimately have lr: "\<not> isWhiteSpace (last ?r)" using lastr 1(4) by simp
    have ih: "splitWs ?r = tokens ?r"
      using 1(1) [OF _ rne hdr lr] Cons dn by simp
    have tk: "tokens (d # rest) = tokens ?r"
      using tokens_dropWhile_ws [of "d # rest"] d by simp
    have tw: "takeWhile notWhiteSpace (c # cs) = takeWhile notWhiteSpace s"
      using s by simp
    show ?thesis
      by (subst splitWs.simps, subst tokens.simps)
         (simp only: dws dn Cons list.case tw ih tk)
  qed
qed

lemma splitWs_Nil: "splitWs [] = [[]]"
  by (subst splitWs.simps) simp

lemma splitWs_trim:
  "splitWs (trim s) = (if trim s = [] then [[]] else tokens s)"
proof (cases "trim s = []")
  case True
  then show ?thesis by (simp add: splitWs_Nil)
next
  case False
  then show ?thesis
    using splitWs_trimmed [OF False trim_ends [OF False]] by (simp add: tokens_trim)
qed

lemma tokens_trim_Nil: "trim s = [] \<Longrightarrow> tokens s = []"
  using tokens_trim [of s] by (simp add: tokens_all_ws)

text \<open>
  Claim C1. \<open>parseCronExpression\<close> returns a value exactly when the input has 5 or 6
  whitespace-separated tokens. With 5 tokens the result has no \<open>second\<close> and the tokens
  are \<open>minute\<close>, \<open>hour\<close>, \<open>dayOfMonth\<close>, \<open>month\<close>, \<open>dayOfWeek\<close> in order; with 6
  tokens the first is \<open>second\<close> and the other five follow in the same order. The tokens
  are the maximal runs of non-whitespace characters (\<open>tokens\<close>), which is what
  \<open>expression.trim().split(/\s+/)\<close> yields except on a blank string, where it yields one
  empty piece.
\<close>

theorem parse_by_token_count:
  "parseCronExpression s =
     (let ts = tokens s in
      if length ts = 5 then
        Some \<lparr>second = None, minute = ts ! 0, hour = ts ! 1, dayOfMonth = ts ! 2,
              month = ts ! 3, dayOfWeek = ts ! 4\<rparr>
      else if length ts = 6 then
        Some \<lparr>second = Some (ts ! 0), minute = ts ! 1, hour = ts ! 2,
              dayOfMonth = ts ! 3, month = ts ! 4, dayOfWeek = ts ! 5\<rparr>
      else None)"
  by (cases "trim s = []")
     (simp_all add: parseCronExpression_def splitWs_trim splitWs_Nil tokens_trim_Nil Let_def)


text \<open>The theorem at a 5-token, a 6-token, a 4-token and an empty input.\<close>

lemma tokens_ex1: "tokens ''0 9 * * 1-5'' = [''0'', ''9'', ''*'', ''*'', ''1-5'']"
  by (simp add: tokens.simps isWhiteSpace_def)

lemma tokens_ex2: "tokens '' 30 0  9 * * 1-5 '' = [''30'', ''0'', ''9'', ''*'', ''*'', ''1-5'']"
  by (simp add: tokens.simps isWhiteSpace_def)

lemma tokens_ex3: "tokens ''* * * *'' = [''*'', ''*'', ''*'', ''*'']"
  by (simp add: tokens.simps isWhiteSpace_def)

theorem parse_by_token_count_witness:
  "parseCronExpression ''0 9 * * 1-5'' =
     Some \<lparr>second = None, minute = ''0'', hour = ''9'', dayOfMonth = ''*'', month = ''*'',
           dayOfWeek = ''1-5''\<rparr>
   \<and> parseCronExpression '' 30 0  9 * * 1-5 '' =
     Some \<lparr>second = Some ''30'', minute = ''0'', hour = ''9'', dayOfMonth = ''*'', month = ''*'',
           dayOfWeek = ''1-5''\<rparr>
   \<and> parseCronExpression ''* * * *'' = None
   \<and> parseCronExpression [] = None"
  using parse_by_token_count [of "''0 9 * * 1-5''"]
        parse_by_token_count [of "'' 30 0  9 * * 1-5 ''"]
        parse_by_token_count [of "''* * * *''"]
        parse_by_token_count [of "[]"]
  by (simp add: tokens_ex1 tokens_ex2 tokens_ex3 tokens_all_ws)

section \<open>Properties of the field validator\<close>

text \<open>Unfolding \<open>parseInt\<close> on a literal, and some values of it.\<close>

lemmas parseInt_eval =
  parseInt_def trimStart_def isWhiteSpace_def startsWith_def isRadixDigit_def digitVal_def Let_def

lemma parseInt_ex: 
  "parseInt ''0'' 10 = Some 0" "parseInt ''-1'' 10 = Some (-1)" "parseInt ''1000'' 10 = Some 1000"
  "parseInt ''10'' 10 = Some 10" "parseInt ''5'' 10 = Some 5" "parseInt ''1,2'' 10 = Some 1"
  "parseInt ''x'' 10 = None" "parseInt ''31'' 10 = Some 31" "parseInt ''2'' 10 = Some 2"
  by (simp_all add: parseInt_eval)

text \<open>
  Claim C6. For a value that starts with \<open>*/\<close>, \<open>validateCronField\<close> reports valid exactly
  when the rest parses as an integer greater than 0, and otherwise reports invalid with the
  error \<open>Invalid step value\<close>; the result does not depend on \<open>min\<close> and \<open>max\<close>.
\<close>

theorem step_valid_iff:
  assumes "startsWith ''*/'' value"
  shows "validateCronField value mn mx =
           (if (\<exists>n. parseInt (drop 2 value) 10 = Some n \<and> 0 < n)
            then \<lparr>valid = True, error = None\<rparr>
            else \<lparr>valid = False, error = Some ''Invalid step value''\<rparr>)"
proof -
  have ne: "value \<noteq> ''*''"
    using assms by (auto simp: startsWith_def)
  show ?thesis
  proof (cases "parseInt (drop 2 value) 10")
    case None
    then show ?thesis
      using assms ne by (simp add: validateCronField_def isNaN_def)
  next
    case (Some n)
    then show ?thesis
      using assms ne by (simp add: validateCronField_def isNaN_def numLe_def)
  qed
qed

text \<open>The steps \<open>*/0\<close> and \<open>*/-1\<close> are invalid and \<open>*/1000\<close> is valid on a 0-59 field.\<close>

theorem step_valid_iff_witness:
  "validateCronField ''*/0'' 0 59 = \<lparr>valid = False, error = Some ''Invalid step value''\<rparr>
   \<and> validateCronField ''*/-1'' 0 59 = \<lparr>valid = False, error = Some ''Invalid step value''\<rparr>
   \<and> validateCronField ''*/1000'' 0 59 = \<lparr>valid = True, error = None\<rparr>"
proof -
  have s: "startsWith ''*/'' ''*/0''" "startsWith ''*/'' ''*/-1''" "startsWith ''*/'' ''*/1000''"
    by (simp_all add: startsWith_def)
  show ?thesis
    using step_valid_iff [OF s(1), of 0 59] step_valid_iff [OF s(2), of 0 59]
      step_valid_iff [OF s(3), of 0 59]
    by (simp add: parseInt_ex)
qed

text \<open>The first two pieces of a split at a separator that occurs.\<close>

lemma splitOn_unfold:
  "splitOn sep s = takeWhile (\<lambda>c. c \<noteq> sep) s #
     (case dropWhile (\<lambda>c. c \<noteq> sep) s of [] \<Rightarrow> [] | x # r \<Rightarrow> splitOn sep r)"
  by (induction s) simp_all

lemma splitOn_parts:
  assumes "sep \<in> set s"
  shows "\<exists>ps. splitOn sep s = takeWhile (\<lambda>c. c \<noteq> sep) s
           # takeWhile (\<lambda>c. c \<noteq> sep) (drop 1 (dropWhile (\<lambda>c. c \<noteq> sep) s)) # ps"
proof -
  have "dropWhile (\<lambda>c. c \<noteq> sep) s \<noteq> []"
    using assms by simp
  moreover have "\<not> (hd (dropWhile (\<lambda>c. c \<noteq> sep) s) \<noteq> sep)"
    using calculation by (rule hd_dropWhile)
  ultimately obtain r where r: "dropWhile (\<lambda>c. c \<noteq> sep) s = sep # r"
    by (cases "dropWhile (\<lambda>c. c \<noteq> sep) s") auto
  have 1: "splitOn sep s = takeWhile (\<lambda>c. c \<noteq> sep) s # splitOn sep r"
    by (subst splitOn_unfold) (simp add: r)
  obtain ps where 2: "splitOn sep r = takeWhile (\<lambda>c. c \<noteq> sep) r # ps"
    using splitOn_unfold [of sep r] by blast
  show ?thesis
    by (simp add: 1 2 r)
qed

text \<open>
  Claim C5. A value that is not \<open>*\<close>, does not start with \<open>*/\<close> and contains a hyphen is
  validated as a range, whether or not it contains a comma: it is valid exactly when both
  halves parse as integers with \<open>min \<le> start\<close>, \<open>end \<le> max\<close> and \<open>start \<le> end\<close>.
\<close>

theorem range_valid_iff:
  assumes "value \<noteq> ''*''" and "\<not> startsWith ''*/'' value" and "includesChar CHR ''-'' value"
  shows "validateCronField value mn mx =
           (if (\<exists>s e. parseInt (rangeStart value) 10 = Some s \<and> parseInt (rangeEnd value) 10 = Some e
                  \<and> mn \<le> s \<and> e \<le> mx \<and> s \<le> e)
            then \<lparr>valid = True, error = None\<rparr>
            else \<lparr>valid = False, error = Some (''Range must be '' @ showInt mn @ ''-'' @ showInt mx)\<rparr>)"
proof -
  obtain ps where ps: "splitOn CHR ''-'' value = rangeStart value # rangeEnd value # ps"
    using splitOn_parts [of "CHR ''-''" "value"] assms(3)
    by (auto simp: includesChar_def rangeStart_def rangeEnd_def)
  show ?thesis
    using assms
    by (cases "parseInt (rangeStart value) 10"; cases "parseInt (rangeEnd value) 10")
       (auto simp: validateCronField_def ps numAt_def isNaN_def numLt_def numGt_def)
qed

text \<open>The range \<open>10-5\<close> is invalid on a 0-59 field; \<open>1,2-5\<close> is read as the range from 1 to 5.\<close>

theorem range_valid_iff_witness:
  "validateCronField ''10-5'' 0 59 = \<lparr>valid = False, error = Some ''Range must be 0-59''\<rparr>
   \<and> validateCronField ''1,2-5'' 0 59 = \<lparr>valid = True, error = None\<rparr>"
proof -
  have a: "''10-5'' \<noteq> ''*''" "\<not> startsWith ''*/'' ''10-5''" "includesChar CHR ''-'' ''10-5''"
    by (simp_all add: startsWith_def includesChar_def)
  have b: "''1,2-5'' \<noteq> ''*''" "\<not> startsWith ''*/'' ''1,2-5''" "includesChar CHR ''-'' ''1,2-5''"
    by (simp_all add: startsWith_def includesChar_def)
  have sh: "showInt 0 = ''0''" "showInt 59 = ''59''"
    by (simp_all add: showInt_def showNat.simps)
  show ?thesis
    using range_valid_iff [OF a, of 0 59] range_valid_iff [OF b, of 0 59]
    by (simp add: rangeStart_def rangeEnd_def parseInt_ex sh)
qed

section \<open>Properties of the field matcher\<close>

lemma startsWith_step_not_star: "startsWith ''*/'' field \<Longrightarrow> field \<noteq> ''*''"
  by (auto simp: startsWith_def)

lemma numRem_zero_iff:
  "n \<noteq> 0 \<Longrightarrow> numRem (Some v) (Some n) = Some 0 \<longleftrightarrow> n dvd v"
  by (auto simp: numRem_def sgn_if dvd_eq_mod_eq_0 [symmetric])

text \<open>
  Claim C7. For a step field \<open>*/n\<close> with \<open>n > 0\<close>, \<open>matchesField\<close> is true exactly when
  \<open>value % n\<close> is 0: the remainder is taken of the field value itself, not of its offset
  from the minimum of the field.
\<close>

theorem step_matches_iff:
  assumes "startsWith ''*/'' field" and "parseInt (drop 2 field) 10 = Some n" and "0 < n"
  shows "matchesField field v = (numRem (Some v) (Some n) = Some 0)
         \<and> matchesField field v = (v mod n = 0)"
proof -
  have "matchesField field v = numEq (numRem (Some v) (Some n)) (Some 0)"
    using assms startsWith_step_not_star [OF assms(1)] by (simp add: matchesField_def)
  also have "\<dots> = (numRem (Some v) (Some n) = Some 0)"
    by (auto simp: numEq_def split: option.splits)
  finally have 1: "matchesField field v = (numRem (Some v) (Some n) = Some 0)" .
  moreover have "(numRem (Some v) (Some n) = Some 0) = (v mod n = 0)"
    using assms(3) numRem_zero_iff [of n v] by (simp add: dvd_eq_mod_eq_0)
  ultimately show ?thesis by simp
qed

text \<open>On the days of a month, \<open>*/5\<close> matches 5, 10, 15, 20, 25 and 30.\<close>

lemma step5_days: "filter (matchesField ''*/5'') [1..31] = [5, 10, 15, 20, 25, 30]"
  by code_simp

theorem step_matches_iff_witness:
  "matchesField ''*/5'' 5 \<and> matchesField ''*/5'' 30 \<and> \<not> matchesField ''*/5'' 1
   \<and> \<not> matchesField ''*/5'' 6 \<and> \<not> matchesField ''*/5'' 31"
proof -
  have s: "startsWith ''*/'' ''*/5''" by (simp add: startsWith_def)
  have p: "parseInt (drop 2 ''*/5'') 10 = Some 5" by (simp add: parseInt_ex)
  have n: "(0::int) < 5" by simp
  show ?thesis
    using step_matches_iff [OF s p n, of 5] step_matches_iff [OF s p n, of 30]
      step_matches_iff [OF s p n, of 1] step_matches_iff [OF s p n, of 6]
      step_matches_iff [OF s p n, of 31]
    by (simp add: numRem_def)
qed

text \<open>
  Claim C3 as stated fails on a list: the field \<open>1,x\<close> has the sub-token \<open>x\<close>, which does
  not parse as an integer, and still matches the candidate 1.
\<close>

theorem malformed_list_counterexample:
  "parseInt ''x'' 10 = None \<and> splitOn CHR '','' ''1,x'' = [''1'', ''x''] \<and> matchesField ''1,x'' 1"
  by (simp add: matchesField_def parseInt_eval includesChar_def)

text \<open>A field none of whose numbers can match matches no candidate.\<close>

lemma malformed_no_match:
  assumes "malformedField field"
  shows "\<not> matchesField field v"
proof -
  have ne: "field \<noteq> ''*''" using assms by (simp add: malformedField_def)
  consider (step) "startsWith ''*/'' field"
    | (range) "\<not> startsWith ''*/'' field" "includesChar CHR ''-'' field"
    | (list) "\<not> startsWith ''*/'' field" "\<not> includesChar CHR ''-'' field" "includesChar CHR '','' field"
    | (single) "\<not> startsWith ''*/'' field" "\<not> includesChar CHR ''-'' field" "\<not> includesChar CHR '','' field"
    by blast
  then show ?thesis
  proof cases
    case step
    then show ?thesis
      using assms ne by (simp add: malformedField_def matchesField_def numRem_def numEq_def)
  next
    case range
    obtain ps where ps: "splitOn CHR ''-'' field = rangeStart field # rangeEnd field # ps"
      using splitOn_parts [of "CHR ''-''" field] range(2)
      by (auto simp: includesChar_def rangeStart_def rangeEnd_def)
    show ?thesis
      using assms ne range
      by (auto simp: malformedField_def matchesField_def ps numAt_def numGe_def numLe_def)
  next
    case list
    then show ?thesis
      using assms ne
      by (auto simp: malformedField_def matchesField_def list_all_iff)
  next
    case single
    then show ?thesis
      using assms ne by (simp add: malformedField_def matchesField_def numEq_def)
  qed
qed

section \<open>Properties of the calendar\<close>

text \<open>
  \<open>YearFromDay\<close> computes the year of the ECMAScript definition: the largest \<open>y\<close> whose
  first day is not after the given day.
\<close>

lemma DayFromYear_cycle:
  fixes q400 q100 q4 q1 :: int
  assumes "0 \<le> q100" "q100 \<le> 3" "0 \<le> q4" "q4 \<le> 24" "0 \<le> q1" "q1 \<le> 3"
  shows "DayFromYear (2001 + 400 * q400 + 100 * q100 + 4 * q4 + q1)
           = 11323 + 146097 * q400 + 36524 * q100 + 1461 * q4 + 365 * q1"
proof -
  let ?y = "2001 + 400 * q400 + 100 * q100 + 4 * q4 + q1"
  have a: "(?y - 1969) div 4 = 8 + 100 * q400 + 25 * q100 + q4"
    using assms by linarith
  have b: "(?y - 1901) div 100 = 1 + 4 * q400 + q100"
    using assms by linarith
  have c: "(?y - 1601) div 400 = 1 + q400"
    using assms by linarith
  show ?thesis
    unfolding DayFromYear_def a b c by simp
qed

lemma YearFromDay_correct:
  "DayFromYear (YearFromDay d) \<le> d \<and> d < DayFromYear (YearFromDay d + 1)"
proof -
  define z where "z = d - 11323"
  define q400 where "q400 = z div 146097"
  define r400 where "r400 = z mod 146097"
  define q100 where "q100 = min 3 (r400 div 36524)"
  define r100 where "r100 = r400 - q100 * 36524"
  define q4 where "q4 = r100 div 1461"
  define r4 where "r4 = r100 mod 1461"
  define q1 where "q1 = min 3 (r4 div 365)"
  define e where "e = r4 - 365 * q1"
  have y: "YearFromDay d = 2001 + 400 * q400 + 100 * q100 + 4 * q4 + q1"
    by (simp add: YearFromDay_def Let_def z_def q400_def r400_def q100_def r100_def q4_def r4_def q1_def)
  have z: "z = 146097 * q400 + r400" by (simp add: q400_def r400_def)
  have r400: "0 \<le> r400" "r400 < 146097" by (simp_all add: r400_def)
  have q100: "0 \<le> q100" "q100 \<le> 3" using r400 by (simp_all add: q100_def)
  have r100: "0 \<le> r100" "q100 < 3 \<Longrightarrow> r100 < 36524" "r100 < 36525"
    using r400 unfolding r100_def q100_def by linarith+
  have r100e: "r100 = 1461 * q4 + r4" by (simp add: q4_def r4_def)
  have r4: "0 \<le> r4" "r4 < 1461" by (simp_all add: r4_def)
  have q4: "0 \<le> q4" "q4 \<le> 24" "q100 < 3 \<Longrightarrow> q4 = 24 \<Longrightarrow> r4 < 1460"
    using r100 r100e r4 by linarith+
  have q1: "0 \<le> q1" "q1 \<le> 3" using r4 by (simp_all add: q1_def)
  have e: "0 \<le> e" "q1 < 3 \<Longrightarrow> e < 365" "e < 366"
    using r4 unfolding e_def q1_def by linarith+
  have d: "d = 11323 + 146097 * q400 + 36524 * q100 + 1461 * q4 + 365 * q1 + e"
    using z r100e by (simp add: z_def r100_def e_def)
  have lo: "DayFromYear (YearFromDay d) = d - e"
    unfolding y using DayFromYear_cycle [OF q100 q4(1,2) q1] d by simp
  have hi: "d < DayFromYear (YearFromDay d + 1)"
  proof -
    consider (a) "q1 < 3" | (b) "q1 = 3" "q4 < 24" | (c) "q1 = 3" "q4 = 24" "q100 < 3"
      | (dd) "q1 = 3" "q4 = 24" "q100 = 3"
      using q1 q4 q100 by linarith
    then show ?thesis
    proof cases
      case a
      have "DayFromYear (2001 + 400 * q400 + 100 * q100 + 4 * q4 + (q1 + 1))
          = 11323 + 146097 * q400 + 36524 * q100 + 1461 * q4 + 365 * (q1 + 1)"
        using a q1 by (intro DayFromYear_cycle q100 q4) simp_all
      then show ?thesis unfolding y using d e(2) [OF a] by (simp add: algebra_simps)
    next
      case b
      have "DayFromYear (2001 + 400 * q400 + 100 * q100 + 4 * (q4 + 1) + 0)
          = 11323 + 146097 * q400 + 36524 * q100 + 1461 * (q4 + 1) + 365 * 0"
        using b q4 by (intro DayFromYear_cycle q100) simp_all
      then show ?thesis unfolding y using d b r4 by (simp add: algebra_simps e_def)
    next
      case c
      have "DayFromYear (2001 + 400 * q400 + 100 * (q100 + 1) + 4 * 0 + 0)
          = 11323 + 146097 * q400 + 36524 * (q100 + 1) + 1461 * 0 + 365 * 0"
        using c q100 by (intro DayFromYear_cycle) simp_all
      then show ?thesis unfolding y using d c r4 q4(3) by (simp add: algebra_simps e_def)
    next
      case dd
      have "DayFromYear (2001 + 400 * (q400 + 1) + 100 * 0 + 4 * 0 + 0)
          = 11323 + 146097 * (q400 + 1) + 36524 * 0 + 1461 * 0 + 365 * 0"
        by (intro DayFromYear_cycle) simp_all
      then show ?thesis unfolding y using d dd r100(3) r100e by (simp add: algebra_simps e_def)
    qed
  qed
  show ?thesis using lo hi e(1) by simp
qed

lemma DayFromYear_mono:
  assumes "y \<le> y'"
  shows "DayFromYear y \<le> DayFromYear y'"
proof -
  have a: "(y - 1969) div 4 \<le> (y' - 1969) div 4"
    using assms by (intro zdiv_mono1) simp_all
  have c: "(y - 1601) div 400 \<le> (y' - 1601) div 400"
    using assms by (intro zdiv_mono1) simp_all
  have "(y' - 1901) div 100 \<le> ((y - 1901) + 100 * (y' - y)) div 100"
    using assms by (intro zdiv_mono1) simp_all
  then have b: "(y' - 1901) div 100 \<le> (y - 1901) div 100 + (y' - y)"
    by simp
  define A B C where "A = (y - 1969) div 4" and "B = (y - 1901) div 100" and "C = (y - 1601) div 400"
  define A' B' C' where "A' = (y' - 1969) div 4" and "B' = (y' - 1901) div 100"
    and "C' = (y' - 1601) div 400"
  have "365 * (y - 1970) + A - B + C \<le> 365 * (y' - 1970) + A' - B' + C'"
    using a b c assms unfolding A_def B_def C_def A'_def B'_def C'_def [symmetric]
    by (simp only: flip: A_def B_def C_def A'_def B'_def C'_def) (simp add: algebra_simps)
  then show ?thesis
    by (simp add: DayFromYear_def A_def B_def C_def A'_def B'_def C'_def)
qed

lemma YearFromDay_largest:
  "DayFromYear y \<le> d \<longleftrightarrow> y \<le> YearFromDay d"
proof
  assume "DayFromYear y \<le> d"
  show "y \<le> YearFromDay d"
  proof (rule ccontr)
    assume "\<not> y \<le> YearFromDay d"
    then have "YearFromDay d + 1 \<le> y" by simp
    then have "DayFromYear (YearFromDay d + 1) \<le> DayFromYear y" by (rule DayFromYear_mono)
    then show False using YearFromDay_correct [of d] \<open>DayFromYear y \<le> d\<close> by simp
  qed
next
  assume "y \<le> YearFromDay d"
  then have "DayFromYear y \<le> DayFromYear (YearFromDay d)" by (rule DayFromYear_mono)
  then show "DayFromYear y \<le> d" using YearFromDay_correct [of d] by simp
qed

text \<open>Three instants: 10 February 2026, 29 February 2000, and the last millisecond of 1969.\<close>

lemma calendar_example:
  "YearFromTime 1770681600000 = 2026 \<and> MonthFromTime 1770681600000 = 1
   \<and> DateFromTime 1770681600000 = 10 \<and> WeekDay 1770681600000 = 2
   \<and> HourFromTime 1770681600000 = 0 \<and> MinFromTime 1770681600000 = 0"
  by code_simp

lemma calendar_leap_day:
  "YearFromTime 951782400000 = 2000 \<and> MonthFromTime 951782400000 = 1
   \<and> DateFromTime 951782400000 = 29 \<and> WeekDay 951782400000 = 2"
  by code_simp

lemma calendar_before_epoch:
  "YearFromTime (- 1) = 1969 \<and> MonthFromTime (- 1) = 11 \<and> DateFromTime (- 1) = 31
   \<and> WeekDay (- 1) = 3 \<and> HourFromTime (- 1) = 23 \<and> MinFromTime (- 1) = 59"
  by code_simp

section \<open>Properties of the occurrence simulator\<close>

subsection \<open>The loop\<close>

lemma nextLoop_stop:
  "\<not> (iter st < count * 100 \<and> int (length (dates st)) < count) \<Longrightarrow> nextLoop tza p count st = st"
  by (subst nextLoop.simps) auto

lemma nextLoop_step:
  "iter st < count * 100 \<Longrightarrow> int (length (dates st)) < count \<Longrightarrow>
   nextLoop tza p count st = nextLoop tza p count (loopBody tza p st)"
  by (subst nextLoop.simps) simp

lemma loopBody_iter: "iter (loopBody tza p st) = iter st + 1"
  by (simp add: loopBody_def Let_def)

lemma loopBody_current: "current (loopBody tza p st) = current st + 60000"
  by (simp add: loopBody_def Let_def)

lemma loopBody_dates:
  "dates (loopBody tza p st) = dates st @ filter (matchesAll tza p) [current st + 60000]"
  by (simp add: loopBody_def Let_def)

lemma nextLoop_iter_mono: "iter st \<le> iter (nextLoop tza p count st)"
proof (induction tza p count st rule: nextLoop.induct)
  case (1 tza p count st)
  show ?case
  proof (cases "iter st < count * 100 \<and> int (length (dates st)) < count")
    case True
    then show ?thesis using 1 by (simp add: nextLoop_step loopBody_iter)
  next
    case False
    then show ?thesis by (simp add: nextLoop_stop)
  qed
qed

lemma nextLoop_iter_le: "iter (nextLoop tza p count st) \<le> max (iter st) (count * 100)"
proof (induction tza p count st rule: nextLoop.induct)
  case (1 tza p count st)
  show ?case
  proof (cases "iter st < count * 100 \<and> int (length (dates st)) < count")
    case True
    then show ?thesis using 1 by (simp add: nextLoop_step loopBody_iter)
  next
    case False
    then show ?thesis by (simp add: nextLoop_stop)
  qed
qed

lemma nextLoop_length_le:
  "int (length (dates (nextLoop tza p count st))) \<le> max (int (length (dates st))) count"
proof (induction tza p count st rule: nextLoop.induct)
  case (1 tza p count st)
  show ?case
  proof (cases "iter st < count * 100 \<and> int (length (dates st)) < count")
    case True
    then show ?thesis using 1 by (auto simp: nextLoop_step loopBody_dates)
  next
    case False
    then show ?thesis by (simp add: nextLoop_stop)
  qed
qed

lemma nextLoop_exit:
  "\<not> (iter (nextLoop tza p count st) < count * 100
       \<and> int (length (dates (nextLoop tza p count st))) < count)"
proof (induction tza p count st rule: nextLoop.induct)
  case (1 tza p count st)
  show ?case
  proof (cases "iter st < count * 100 \<and> int (length (dates st)) < count")
    case True
    then show ?thesis using 1 by (simp add: nextLoop_step)
  next
    case False
    then show ?thesis by (simp add: nextLoop_stop)
  qed
qed

lemma candidates_0: "n \<le> 0 \<Longrightarrow> candidates start n = []"
  by (simp add: candidates_def)

lemma candidates_Suc:
  "0 \<le> n \<Longrightarrow> candidates start (n + 1) = (start + 60000) # candidates (start + 60000) n"
proof -
  assume "0 \<le> n"
  then have "nat (n + 1) = Suc (nat n)" by simp
  then have "[1..<Suc (nat (n + 1))] = 1 # map Suc [1..<Suc (nat n)]"
    by (simp add: upt_conv_Cons map_Suc_upt del: upt_Suc)
  then show ?thesis
    by (simp add: candidates_def comp_def algebra_simps del: upt_Suc)
qed

lemma nextLoop_dates:
  "dates (nextLoop tza p count st) =
     dates st @ filter (matchesAll tza p)
       (candidates (current st) (iter (nextLoop tza p count st) - iter st))"
proof (induction tza p count st rule: nextLoop.induct)
  case (1 tza p count st)
  show ?case
  proof (cases "iter st < count * 100 \<and> int (length (dates st)) < count")
    case True
    let ?st' = "loopBody tza p st"
    let ?fin = "nextLoop tza p count ?st'"
    have fin: "nextLoop tza p count st = ?fin" using True by (simp add: nextLoop_step)
    have m: "0 \<le> iter ?fin - iter ?st'" using nextLoop_iter_mono [of ?st' tza p count] by simp
    have e: "iter ?fin - iter st = (iter ?fin - iter ?st') + 1" by (simp add: loopBody_iter)
    have c: "candidates (current st) (iter ?fin - iter st) =
        (current st + 60000) # candidates (current ?st') (iter ?fin - iter ?st')"
      unfolding e using candidates_Suc [OF m, of "current st"] by (simp only: loopBody_current)
    have "dates ?fin = dates ?st' @ filter (matchesAll tza p)
        (candidates (current ?st') (iter ?fin - iter ?st'))"
      using 1 True by simp
    then show ?thesis
      unfolding fin c by (simp add: loopBody_dates)
  next
    case False
    then show ?thesis by (simp add: nextLoop_stop candidates_0)
  qed
qed

lemma nextLoop_current:
  "current (nextLoop tza p count st) = current st + 60000 * (iter (nextLoop tza p count st) - iter st)"
proof (induction tza p count st rule: nextLoop.induct)
  case (1 tza p count st)
  show ?case
  proof (cases "iter st < count * 100 \<and> int (length (dates st)) < count")
    case True
    then show ?thesis using 1 by (simp add: nextLoop_step loopBody_iter loopBody_current)
  next
    case False
    then show ?thesis by (simp add: nextLoop_stop)
  qed
qed

lemma candidates_sorted: "sorted_wrt (<) (candidates start n)"
  by (simp add: candidates_def sorted_wrt_map del: upt_Suc)

lemma candidates_ge: "d \<in> set (candidates start n) \<Longrightarrow> start + 60000 \<le> d"
  by (auto simp: candidates_def simp del: upt_Suc)

subsection \<open>No 31 February\<close>

lemma no_feb_31: "MonthFromTime t = 1 \<Longrightarrow> DateFromTime t \<le> 29"
  by (auto simp: MonthFromTime_def DateFromTime_def InLeapYear_def Let_def split: if_splits)

lemma matches_31: "matchesField ''31'' v \<longleftrightarrow> v = 31"
  by (auto simp: matchesField_def startsWith_def includesChar_def parseInt_ex numEq_def)

lemma matches_2: "matchesField ''2'' v \<longleftrightarrow> v = 2"
  by (auto simp: matchesField_def startsWith_def includesChar_def parseInt_ex numEq_def)

lemma matches_star: "matchesField ''*'' v"
  by (simp add: matchesField_def)

lemma feb_31_never:
  assumes "dayOfMonth p = ''31''" and "month p = ''2''"
  shows "\<not> matchesAll tza p t"
proof
  assume m: "matchesAll tza p t"
  then have "getDate tza t = 31" and "getMonth tza t + 1 = 2"
    using assms by (auto simp: matchesAll_def Let_def matches_31 matches_2 split: if_splits)
  then show False
    using no_feb_31 [of "LocalTime tza t"] by (simp add: getDate_def getMonth_def)
qed

subsection \<open>The result of a run\<close>

lemma run_dates:
  "getNextExecutions tza now p count =
     filter (matchesAll tza p) (candidates now (iter (runNextExecutions tza now p count)))"
  using nextLoop_dates [of tza p count "\<lparr>iter = 0, current = now, dates = []\<rparr>"]
  by (simp add: getNextExecutions_def runNextExecutions_def)

lemma run_iter_ge: "0 \<le> iter (runNextExecutions tza now p count)"
  using nextLoop_iter_mono [of "\<lparr>iter = 0, current = now, dates = []\<rparr>" tza p count]
  by (simp add: runNextExecutions_def)

lemma run_iter_le: "iter (runNextExecutions tza now p count) \<le> max 0 (count * 100)"
  using nextLoop_iter_le [of tza p count "\<lparr>iter = 0, current = now, dates = []\<rparr>"]
  by (simp add: runNextExecutions_def)

lemma run_length_le: "int (length (getNextExecutions tza now p count)) \<le> max 0 count"
  using nextLoop_length_le [of tza p count "\<lparr>iter = 0, current = now, dates = []\<rparr>"]
  by (simp add: getNextExecutions_def runNextExecutions_def)

lemma run_current:
  "current (runNextExecutions tza now p count) = now + 60000 * iter (runNextExecutions tza now p count)"
  using nextLoop_current [of tza p count "\<lparr>iter = 0, current = now, dates = []\<rparr>"]
  by (simp add: runNextExecutions_def)

lemma run_exit:
  "int (length (getNextExecutions tza now p count)) < count \<Longrightarrow>
   iter (runNextExecutions tza now p count) = count * 100"
  using nextLoop_exit [of tza p count "\<lparr>iter = 0, current = now, dates = []\<rparr>"]
    run_iter_le [of tza now p count]
  by (simp add: getNextExecutions_def runNextExecutions_def)

lemma run_never:
  assumes "\<And>t. \<not> matchesAll tza p t"
  shows "getNextExecutions tza now p count = []"
    and "iter (runNextExecutions tza now p count) = max 0 (count * 100)"
proof -
  show e: "getNextExecutions tza now p count = []"
    by (simp add: run_dates assms)
  show "iter (runNextExecutions tza now p count) = max 0 (count * 100)"
  proof (cases "0 < count")
    case True
    then show ?thesis using run_exit [of tza now p count] e by simp
  next
    case False
    then show ?thesis
      using run_iter_ge [of tza now p count] run_iter_le [of tza now p count] by simp
  qed
qed

text \<open>
  Claim C4. \<open>getNextExecutions\<close> advances the candidate at most \<open>count * 100\<close> times, one
  minute each, and returns at most \<open>count\<close> matches: exactly the matching ones among the
  candidates it visited. When it returns fewer than \<open>count\<close> matches it has used up the
  ceiling. For day-of-month \<open>31\<close> in month \<open>2\<close> it returns the empty list after
  \<open>count * 100\<close> advances, from every starting instant. The function is total: there is
  no error.
\<close>

theorem next_executions_bounded:
  "0 \<le> iter (runNextExecutions tza now parsed count)
   \<and> iter (runNextExecutions tza now parsed count) \<le> max 0 (count * 100)
   \<and> current (runNextExecutions tza now parsed count)
       = now + 60000 * iter (runNextExecutions tza now parsed count)
   \<and> int (length (getNextExecutions tza now parsed count)) \<le> max 0 count
   \<and> getNextExecutions tza now parsed count
       = filter (matchesAll tza parsed)
           (candidates now (iter (runNextExecutions tza now parsed count)))
   \<and> (int (length (getNextExecutions tza now parsed count)) < count
        \<longrightarrow> iter (runNextExecutions tza now parsed count) = count * 100)
   \<and> (dayOfMonth parsed = ''31'' \<and> month parsed = ''2''
        \<longrightarrow> getNextExecutions tza now parsed count = []
            \<and> iter (runNextExecutions tza now parsed count) = max 0 (count * 100))"
  using run_iter_ge [of tza now parsed count] run_iter_le [of tza now parsed count]
    run_current [of tza now parsed count] run_length_le [of tza now parsed count]
    run_dates [of tza now parsed count] run_exit [of tza now parsed count]
    run_never [of tza parsed now count, OF feb_31_never]
  by blast

text \<open>Two runs that start on 10 February 2026, 00:00 UTC.\<close>

lemma run_everyMinute:
  "runNextExecutions (\<lambda>t. 0) 1770681600000 everyMinute 2
     = \<lparr>iter = 2, current = 1770681720000, dates = [1770681660000, 1770681720000]\<rparr>"
  by (simp add: runNextExecutions_def nextLoop.simps loopBody_def matchesAll_def everyMinute_def matches_star)

theorem next_executions_bounded_witness:
  "getNextExecutions (\<lambda>t. 0) 1770681600000 feb31 3 = []
   \<and> iter (runNextExecutions (\<lambda>t. 0) 1770681600000 feb31 3) = 300
   \<and> current (runNextExecutions (\<lambda>t. 0) 1770681600000 feb31 3) = 1770699600000
   \<and> getNextExecutions (\<lambda>t. 0) 1770681600000 everyMinute 2 = [1770681660000, 1770681720000]
   \<and> iter (runNextExecutions (\<lambda>t. 0) 1770681600000 everyMinute 2) = 2"
proof -
  have h: "dayOfMonth feb31 = ''31'' \<and> month feb31 = ''2''"
    by (simp add: feb31_def)
  have a: "getNextExecutions (\<lambda>t. 0) 1770681600000 feb31 3 = []
      \<and> iter (runNextExecutions (\<lambda>t. 0) 1770681600000 feb31 3) = max 0 (3 * 100)"
    using next_executions_bounded [of "\<lambda>t. 0" 1770681600000 feb31 3] h by blast
  have b: "current (runNextExecutions (\<lambda>t. 0) 1770681600000 feb31 3)
      = 1770681600000 + 60000 * iter (runNextExecutions (\<lambda>t. 0) 1770681600000 feb31 3)"
    using next_executions_bounded [of "\<lambda>t. 0" 1770681600000 feb31 3] by blast
  show ?thesis
    using a b by (simp add: run_everyMinute getNextExecutions_def)
qed

text \<open>
  Claim C8. The instants that \<open>getNextExecutions\<close> returns are strictly increasing, and
  each is at least one minute after the starting instant.
\<close>

theorem next_executions_increasing:
  "sorted_wrt (<) (getNextExecutions tza now parsed count)
   \<and> (\<forall>d\<in>set (getNextExecutions tza now parsed count). now + 60000 \<le> d)"
  by (auto simp: run_dates sorted_wrt_filter candidates_sorted dest: candidates_ge)

theorem next_executions_increasing_witness:
  "getNextExecutions (\<lambda>t. 0) 1770681600000 everyMinute 2 = [1770681660000, 1770681720000]
   \<and> sorted_wrt (<) (getNextExecutions (\<lambda>t. 0) 1770681600000 everyMinute 2)
   \<and> 1770681600000 + 60000 \<le> hd (getNextExecutions (\<lambda>t. 0) 1770681600000 everyMinute 2)"
  using next_executions_increasing [of "\<lambda>t. 0" 1770681600000 everyMinute 2]
  by (simp add: run_everyMinute getNextExecutions_def)

text \<open>A list field matches exactly the values of its elements that parse.\<close>

lemma set_map_filter:
  "set (List.map_filter f xs) = {y. \<exists>x\<in>set xs. f x = Some y}"
  by (induction xs) (auto simp: map_filter_simps split: option.splits)

lemma list_field_matches:
  assumes "listField field"
  shows "matchesField field v \<longleftrightarrow> v \<in> set (wellFormedElements field)"
proof -
  have "matchesField field v \<longleftrightarrow> Some v \<in> set (map (\<lambda>p. parseInt p 10) (splitOn CHR '','' field))"
    using assms by (simp add: listField_def matchesField_def)
  also have "\<dots> \<longleftrightarrow> v \<in> set (wellFormedElements field)"
    by (simp add: wellFormedElements_def set_map_filter image_iff eq_commute)
  finally show ?thesis .
qed

text \<open>
  Claim C3, amended. When no number of a field can match (the step of a step field, or one
  of the two halves of a range, or every element of a list, or the single value does not
  parse as an integer), \<open>matchesField\<close> is false for every candidate, and
  \<open>getNextExecutions\<close> on a schedule with such a field returns the empty list. A list
  field matches exactly the candidates that are the value of one of its elements that
  parse: malformed elements are ignored and the well-formed ones still match.
\<close>

theorem malformed_never_matches:
  "(malformedField field \<longrightarrow>
      \<not> matchesField field v
      \<and> (field \<in> set [minute p, hour p, dayOfMonth p, month p, dayOfWeek p]
            \<longrightarrow> getNextExecutions tza now p count = []))
   \<and> (listField field \<longrightarrow> (matchesField field v \<longleftrightarrow> v \<in> set (wellFormedElements field)))"
proof (intro conjI impI)
  assume m: "malformedField field"
  show "\<not> matchesField field v" by (rule malformed_no_match [OF m])
  assume "field \<in> set [minute p, hour p, dayOfMonth p, month p, dayOfWeek p]"
  then have "\<And>t. \<not> matchesAll tza p t"
    using malformed_no_match [OF m] by (auto simp: matchesAll_def Let_def)
  then show "getNextExecutions tza now p count = []" by (rule run_never(1))
next
  assume "listField field"
  then show "matchesField field v \<longleftrightarrow> v \<in> set (wellFormedElements field)"
    by (rule list_field_matches)
qed

text \<open>
  The range \<open>1-x\<close> matches nothing; the list \<open>3,x,7\<close> matches 3 and 7 and not 5.
\<close>

theorem malformed_never_matches_witness:
  "malformedField ''1-x'' \<and> \<not> matchesField ''1-x'' 1
   \<and> getNextExecutions (\<lambda>t. 0) 1770681600000
        \<lparr>second = None, minute = ''1-x'', hour = ''*'', dayOfMonth = ''*'', month = ''*'',
         dayOfWeek = ''*''\<rparr> 5 = []
   \<and> listField ''3,x,7'' \<and> wellFormedElements ''3,x,7'' = [3, 7]
   \<and> matchesField ''3,x,7'' 3 \<and> matchesField ''3,x,7'' 7 \<and> \<not> matchesField ''3,x,7'' 5"
proof -
  let ?p = "\<lparr>second = None, minute = ''1-x'', hour = ''*'', dayOfMonth = ''*'', month = ''*'',
         dayOfWeek = ''*''\<rparr>"
  have m: "malformedField ''1-x''"
    by (simp add: malformedField_def startsWith_def includesChar_def rangeStart_def rangeEnd_def parseInt_eval)
  have l: "listField ''3,x,7''"
    by (simp add: listField_def startsWith_def includesChar_def)
  have w: "wellFormedElements ''3,x,7'' = [3, 7]"
    by (simp add: wellFormedElements_def map_filter_simps parseInt_eval)
  show ?thesis
    using m l w malformed_never_matches [of "''1-x''" 1 ?p "\<lambda>t. 0" 1770681600000 5]
      malformed_never_matches [of "''3,x,7''" 3] malformed_never_matches [of "''3,x,7''" 7]
      malformed_never_matches [of "''3,x,7''" 5]
    by simp
qed

section \<open>Properties of the description renderer\<close>

lemma parse_weekdays:
  "parseCronExpression ''0 9 * * 1-5'' =
     Some \<lparr>second = None, minute = ''0'', hour = ''9'', dayOfMonth = ''*'', month = ''*'',
           dayOfWeek = ''1-5''\<rparr>"
  by code_simp

lemma describe_weekdays:
  "describeCron \<lparr>second = None, minute = ''0'', hour = ''9'', dayOfMonth = ''*'', month = ''*'',
     dayOfWeek = ''1-5''\<rparr> = ''At 09:00 on Monday''"
  by code_simp

text \<open>
  Claim C2 as stated fails: the description of \<open>0 9 * * 1-5\<close> is \<open>At 09:00 on Monday\<close>.
  The first letter is capitalised, so the substring \<open>at 09:00\<close> does not occur, and the day
  fragment names Monday only.
\<close>

theorem describe_weekdays_counterexample:
  "map_option describeCron (parseCronExpression ''0 9 * * 1-5'') = Some ''At 09:00 on Monday''
   \<and> \<not> containsStr ''at 09:00'' ''At 09:00 on Monday''
   \<and> \<not> containsStr ''Friday'' ''At 09:00 on Monday''"
  by (simp add: parse_weekdays describe_weekdays containsStr_def)

text \<open>
  Claim C2, amended. The description of the parse of \<open>0 9 * * 1-5\<close> starts with
  \<open>At 09:00\<close>, the time fragment with its first letter capitalised, followed by a day
  fragment that \<open>on\<close> introduces.
\<close>

theorem describe_weekdays_prefix:
  "\<exists>p. parseCronExpression ''0 9 * * 1-5'' = Some p \<and> prefix ''At 09:00 on '' (describeCron p)"
  by (simp add: parse_weekdays describe_weekdays)

lemma describe_day7:
  "describeCron \<lparr>second = None, minute = ''0'', hour = ''9'', dayOfMonth = ''*'', month = ''*'',
     dayOfWeek = ''7''\<rparr> = ''At 09:00 on ''"
  by code_simp

text \<open>
  Claim C10 as stated fails: with day-of-week \<open>7\<close> the description is \<open>At 09:00 on \<close>, in
  which \<open>undefined\<close> does not occur.
\<close>

theorem describe_day7_counterexample:
  "parseInt ''7'' 10 = Some 7
   \<and> describeCron \<lparr>second = None, minute = ''0'', hour = ''9'', dayOfMonth = ''*'', month = ''*'',
        dayOfWeek = ''7''\<rparr> = ''At 09:00 on ''
   \<and> \<not> containsStr ''undefined'' (describeCron \<lparr>second = None, minute = ''0'', hour = ''9'',
        dayOfMonth = ''*'', month = ''*'', dayOfWeek = ''7''\<rparr>)"
  by (simp add: describe_day7 containsStr_def)
     (simp add: parseInt_def trimStart_def isWhiteSpace_def startsWith_def isRadixDigit_def digitVal_def Let_def)

lemma timePartOf_not_Nil: "timePartOf p \<noteq> []"
  by (simp add: timePartOf_def Let_def)

lemma splitOn_no_sep: "sep \<notin> set s \<Longrightarrow> splitOn sep s = [s]"
  by (induction s) auto

text \<open>
  Claim C10, amended. When \<open>dayOfMonth\<close> is \<open>*\<close> and \<open>dayOfWeek\<close> is a single numeric token
  outside 0-6, the lookup in the table of day names is out of range and yields
  \<open>undefined\<close>, which \<open>join\<close> renders as the empty string: the day fragment is \<open>on\<close>
  followed by a space and nothing else, so neither a day name nor the token appears.
\<close>

theorem out_of_range_day_empty:
  assumes "dayOfMonth p = ''*''"
    and "\<not> includesChar CHR '','' (dayOfWeek p)"
    and "parseInt (dayOfWeek p) 10 = Some n"
    and "n < 0 \<or> 6 < n"
  shows "arrayAt dayNames n = None
         \<and> dayPartOf p = ''on ''
         \<and> describeCron p =
             capitalize (timePartOf p @ '' on '' @ (if month p = ''*'' then [] else '' '' @ monthPartOf p))"
proof -
  have ne: "dayOfWeek p \<noteq> ''*''"
  proof
    assume "dayOfWeek p = ''*''"
    then have "parseInt (dayOfWeek p) 10 = None"
      by (simp add: parseInt_def trimStart_def isWhiteSpace_def startsWith_def isRadixDigit_def digitVal_def Let_def)
    then show False using assms(3) by simp
  qed
  have a: "arrayAt dayNames n = None"
    using assms(4) by (auto simp: arrayAt_def dayNames_def)
  have sp: "splitOn CHR '','' (dayOfWeek p) = [dayOfWeek p]"
    using assms(2) by (simp add: splitOn_no_sep includesChar_def)
  have d: "dayPartOf p = ''on ''"
    using assms(1,3) ne a by (simp add: dayPartOf_def sp dowName_def)
  have m: "monthPartOf p \<noteq> [] \<longleftrightarrow> month p \<noteq> ''*''"
    by (simp add: monthPartOf_def Let_def)
  show ?thesis
    using a d m timePartOf_not_Nil [of p]
    by (cases "month p = ''*''") (simp_all add: describeCron_def Let_def)
qed

theorem out_of_range_day_empty_witness:
  "dayPartOf \<lparr>second = None, minute = ''0'', hour = ''9'', dayOfMonth = ''*'', month = ''*'',
        dayOfWeek = ''7''\<rparr> = ''on ''
   \<and> describeCron \<lparr>second = None, minute = ''0'', hour = ''9'', dayOfMonth = ''*'', month = ''*'',
        dayOfWeek = ''7''\<rparr> = ''At 09:00 on ''"
proof -
  let ?p = "\<lparr>second = None, minute = ''0'', hour = ''9'', dayOfMonth = ''*'', month = ''*'',
        dayOfWeek = ''7''\<rparr>"
  have 1: "dayOfMonth ?p = ''*''" by simp
  have 2: "\<not> includesChar CHR '','' (dayOfWeek ?p)" by (simp add: includesChar_def)
  have 3: "parseInt (dayOfWeek ?p) 10 = Some 7"
    by (simp add: parseInt_def trimStart_def isWhiteSpace_def startsWith_def isRadixDigit_def digitVal_def Let_def)
  have 4: "(7::int) < 0 \<or> 6 < (7::int)" by simp
  have t: "timePartOf ?p = ''at 09:00''" by code_simp
  show ?thesis
    using out_of_range_day_empty [OF 1 2 3 4]
    by (simp add: t capitalize_def toUpperCaseChar_def)
qed

end
